theory Spec2Isabelle
  imports Main
begin

section \<open>Playlist import of quodlibet/browsers/playlists/util.py\<close>

subsection \<open>Byte strings\<close>

text \<open>
  The lines of a playlist file are Python \<open>bytes\<close>; a filesystem-native path
  (\<open>fsnative\<close>) is a string. Both are lists of characters here.
\<close>

type_synonym bytes = "char list"
type_synonym fsnative = "char list"

datatype error = ValueError

text \<open>
  \<open>bytes.strip()\<close> removes leading and trailing ASCII whitespace: space, tab, line
  feed, vertical tab, form feed, carriage return.
\<close>

definition is_space :: "char \<Rightarrow> bool" where
  "is_space c = (c \<in> set [CHR 0x20, CHR 0x09, CHR 0x0A, CHR 0x0B, CHR 0x0C, CHR 0x0D])"

definition strip :: "bytes \<Rightarrow> bytes" where
  "strip b = rev (dropWhile is_space (rev (dropWhile is_space b)))"

text \<open>\<open>bytes.lower()\<close> maps the ASCII letters A..Z to a..z and keeps every other byte.\<close>

definition lower_byte :: "char \<Rightarrow> char" where
  "lower_byte c =
     (case map_of (zip ''ABCDEFGHIJKLMNOPQRSTUVWXYZ'' ''abcdefghijklmnopqrstuvwxyz'') c of
        Some d \<Rightarrow> d
      | None \<Rightarrow> c)"

definition lower :: "bytes \<Rightarrow> bytes" where
  "lower b = map lower_byte b"

definition startswith :: "bytes \<Rightarrow> bytes \<Rightarrow> bool" where
  "startswith b p = (take (length p) b = p)"

text \<open>
  \<open>b.index(c)\<close> for a single byte \<open>c\<close>: the position of its first occurrence;
  Python raises \<open>ValueError\<close> when there is none, which is \<open>None\<close> here.
\<close>

fun index :: "bytes \<Rightarrow> char \<Rightarrow> nat option" where
  "index [] c = None"
| "index (x # xs) c = (if x = c then Some 0 else map_option Suc (index xs c))"

subsection \<open>Collaborators\<close>

text \<open>
  The functions that util.py imports from senf, os.path, quodlibet.formats,
  quodlibet.util.path and quodlibet.qltk.wlw are parameters of the model. A function
  that raises \<open>ValueError\<close> (\<open>bytes2fsn\<close>, \<open>uri2fsn\<close>) returns \<open>None\<close> for it;
  \<open>MusicFile\<close> returns \<open>None\<close> for a file it cannot load, as in Python.
  \<open>'t\<close> is the type of track objects, \<open>'w\<close> the state of the progress window;
  \<open>step\<close> returns whether the window asks to stop, and the window's next state.
\<close>

record ('t, 'w) env =
  bytes2fsn :: "bytes \<Rightarrow> fsnative option"
  uri_is_valid :: "fsnative \<Rightarrow> bool"
  uri2fsn :: "fsnative \<Rightarrow> fsnative option"
  path_join :: "fsnative \<Rightarrow> fsnative \<Rightarrow> fsnative"
  realpath :: "fsnative \<Rightarrow> fsnative"
  dirname :: "fsnative \<Rightarrow> fsnative"
  MusicFile :: "fsnative \<Rightarrow> 't option"
  RemoteFile :: "fsnative \<Rightarrow> 't"
  WaitLoadWindow :: "nat \<Rightarrow> 'w"
  step :: "'w \<Rightarrow> bool \<times> 'w"

text \<open>
  Modelled from the spec: the Library collaborator (quodlibet.library is not part of
  the sources at hand) is a lookup of tracks by path. It is an association list from
  paths to tracks; \<open>get_filename\<close> looks a path up. The argument \<open>library\<close> of the
  parsers is optional (\<open>None\<close> by default). Python's \<open>if library:\<close> is false for
  \<open>None\<close> and for a container without elements.
\<close>

type_synonym 't library = "(fsnative \<times> 't) list"

definition get_filename :: "'t library \<Rightarrow> fsnative \<Rightarrow> 't option" where
  "get_filename l p = map_of l p"

definition truthy :: "'t library \<Rightarrow> bool" where
  "truthy l = (l \<noteq> [])"

text \<open>
  What the import does to its collaborators, in order: a library lookup, the
  construction of a track from a file (\<open>MusicFile\<close>) or from a URI (\<open>RemoteFile\<close>),
  a step of the progress window.
\<close>

datatype event = LibQuery fsnative | Probe fsnative | Remote fsnative | Tick

record filelike =
  fl_lines :: "bytes list"
  fl_name :: "fsnative option"

text \<open>
  A playlist is a name and a Python list of songs; \<open>FileBackedPlaylist.new\<close> is
  taken to return an empty playlist of the name it is given, and \<open>extend\<close> to
  append. Track objects are dictionaries that hold at least their file name or URI,
  so they are true in Python: \<open>filter(None, songs)\<close> removes the elements that are
  \<open>None\<close>. A list element is \<open>None\<close> or a track.
\<close>

record 't playlist =
  playlist_name :: string
  playlist_songs :: "'t option list"

record ('t, 'w) import_state =
  songs :: "'t option list"
  win :: "'w"
  trace :: "event list"

subsection \<open>The parsers\<close>

text \<open>
  \<open>__attempt_add\<close> appends the decoded name and swallows the \<open>ValueError\<close> of
  \<open>bytes2fsn\<close>. \<open>_af_for\<close> returns the track together with the events it caused.
\<close>

definition attempt_add :: "('t, 'w) env \<Rightarrow> bytes \<Rightarrow> fsnative list \<Rightarrow> fsnative list" where
  "attempt_add e filename filenames =
     (case bytes2fsn e filename of
        Some f \<Rightarrow> filenames @ [f]
      | None \<Rightarrow> filenames)"

definition af_for ::
  "('t, 'w) env \<Rightarrow> fsnative \<Rightarrow> 't library option \<Rightarrow> fsnative \<Rightarrow> 't option \<times> event list"
where
  "af_for e filename library pl_dir =
     (let full_path = path_join e pl_dir filename;
          filename' = realpath e full_path;
          (af, tr) = (case library of
                        None \<Rightarrow> (None, [])
                      | Some l \<Rightarrow>
                          if truthy l then (get_filename l filename', [LibQuery filename'])
                          else (None, []))
      in case af of
           None \<Rightarrow> (MusicFile e filename', tr @ [Probe filename'])
         | Some t \<Rightarrow> (Some t, tr))"

text \<open>The body of the loop of \<open>__create_playlist\<close>, up to the step of the window.\<close>

definition entry_song ::
  "('t, 'w) env \<Rightarrow> 't library option \<Rightarrow> fsnative \<Rightarrow> fsnative \<Rightarrow> 't option \<times> event list"
where
  "entry_song e library source_dir filename =
     (if \<not> uri_is_valid e filename then af_for e filename library source_dir
      else case uri2fsn e filename of
             None \<Rightarrow> (Some (RemoteFile e filename), [Remote filename])
           | Some fn \<Rightarrow> af_for e fn library source_dir)"

fun import_loop ::
  "('t, 'w) env \<Rightarrow> 't library option \<Rightarrow> fsnative \<Rightarrow> fsnative list \<Rightarrow>
   ('t, 'w) import_state \<Rightarrow> ('t, 'w) import_state"
where
  "import_loop e library source_dir [] st = st"
| "import_loop e library source_dir (filename # files) st =
     (let (song, evs) = entry_song e library source_dir filename;
          (stop, w) = step e (win st);
          st' = \<lparr>songs = songs st @ [song], win = w, trace = trace st @ evs @ [Tick]\<rparr>
      in if stop then st' else import_loop e library source_dir files st')"

definition run_import ::
  "('t, 'w) env \<Rightarrow> 't library option \<Rightarrow> fsnative \<Rightarrow> fsnative list \<Rightarrow> ('t, 'w) import_state"
where
  "run_import e library source_dir files =
     import_loop e library source_dir files
       \<lparr>songs = [], win = WaitLoadWindow e (length files), trace = []\<rparr>"

definition create_playlist ::
  "('t, 'w) env \<Rightarrow> string \<Rightarrow> fsnative \<Rightarrow> fsnative list \<Rightarrow> 't library option \<Rightarrow> 't playlist"
where
  "create_playlist e name source_dir files library =
     \<lparr>playlist_name = name,
      playlist_songs = filter (\<lambda>s. s \<noteq> None) (songs (run_import e library source_dir files))\<rparr>"

text \<open>
  \<open>_dir_for\<close>: the directory of the stream's \<open>name\<close> attribute; a stream without
  one (the \<open>AttributeError\<close> branch) gives the empty path.
\<close>

definition dir_for :: "('t, 'w) env \<Rightarrow> filelike \<Rightarrow> fsnative" where
  "dir_for e f = (case fl_name f of Some n \<Rightarrow> dirname e n | None \<Rightarrow> [])"

text \<open>
  The loops over the lines of the stream. Nothing in \<open>parse_m3u\<close> raises; in
  \<open>parse_pls\<close> the \<open>ValueError\<close> of \<open>line.index(b"=")\<close> is not caught and ends the
  call.
\<close>

fun m3u_lines :: "('t, 'w) env \<Rightarrow> bytes list \<Rightarrow> fsnative list \<Rightarrow> fsnative list" where
  "m3u_lines e [] filenames = filenames"
| "m3u_lines e (l # ls) filenames =
     (let line = strip l
      in if startswith line ''#'' then m3u_lines e ls filenames
         else m3u_lines e ls (attempt_add e line filenames))"

definition parse_m3u ::
  "('t, 'w) env \<Rightarrow> filelike \<Rightarrow> string \<Rightarrow> 't library option \<Rightarrow> 't playlist"
where
  "parse_m3u e f pl_name library =
     create_playlist e pl_name (dir_for e f) (m3u_lines e (fl_lines f) []) library"

fun pls_lines ::
  "('t, 'w) env \<Rightarrow> bytes list \<Rightarrow> fsnative list \<Rightarrow> error + fsnative list"
where
  "pls_lines e [] filenames = Inr filenames"
| "pls_lines e (l # ls) filenames =
     (let line = strip l
      in if \<not> startswith (lower line) ''file'' then pls_lines e ls filenames
         else case index line CHR ''='' of
                None \<Rightarrow> Inl ValueError
              | Some i \<Rightarrow>
                  pls_lines e ls (attempt_add e (strip (drop (i + 1) line)) filenames))"

definition parse_pls ::
  "('t, 'w) env \<Rightarrow> filelike \<Rightarrow> string \<Rightarrow> 't library option \<Rightarrow> error + 't playlist"
where
  "parse_pls e f pl_name library =
     (case pls_lines e (fl_lines f) [] of
        Inl err \<Rightarrow> Inl err
      | Inr filenames \<Rightarrow> Inr (create_playlist e pl_name (dir_for e f) filenames library))"

subsection \<open>The confirmation of a removal of tracks\<close>

text \<open>
  \<open>confirm_remove_playlist_tracks_dialog_invoke\<close>. Its collaborators are parameters:
  \<open>song_call s k\<close> is \<open>s(k)\<close>, the value of tag \<open>k\<close> of song \<open>s\<close>;
  \<open>next_iter\<close> is the song that \<open>next(iter(set(songs)))\<close> yields (the iteration
  order of a Python set is not specified, so it is a function of the list the set
  was built from); \<open>title_text t n\<close> is
  \<open>ngettext(singular, plural, n) % {'title': t, 'count': n}\<close>; \<open>run t\<close> is the
  response of the dialog \<open>Confirmer(parent, t, "", ok_text)\<close> when it is run.
  The function returns its result and what it did to the dialog.
\<close>

record ('s, 'r) prompt_env =
  song_call :: "'s \<Rightarrow> string \<Rightarrow> string"
  next_iter :: "'s list \<Rightarrow> 's"
  title_text :: "string \<Rightarrow> nat \<Rightarrow> string"
  run :: "string \<Rightarrow> 'r"
  RESPONSE_INVOKE :: "'r"

datatype dialog_event = Construct string | Run

definition confirm_remove_playlist_tracks_dialog_invoke ::
  "('s, 'r) prompt_env \<Rightarrow> 's list \<Rightarrow> bool \<times> dialog_event list"
where
  "confirm_remove_playlist_tracks_dialog_invoke e songs_arg =
     (let songs = set songs_arg
      in if songs = {} then (True, [])
         else
           let count = card songs;
               song = next_iter e songs_arg;
               title = title_text e
                         (if song_call e song ''title'' \<noteq> [] then song_call e song ''title''
                          else song_call e song ''~basename'')
                         count;
               prompt = run e title
           in (prompt = RESPONSE_INVOKE e, [Construct title, Run]))"

subsection \<open>Notions the properties are stated with\<close>

text \<open>
  The state of the progress window after \<open>n\<close> steps, whether its step number
  \<open>n\<close> (counted from 0) asks to stop, and the number of entries the loop of
  \<open>__create_playlist\<close> goes through before it ends.
\<close>

fun win_after :: "('t, 'w) env \<Rightarrow> 'w \<Rightarrow> nat \<Rightarrow> 'w" where
  "win_after e w 0 = w"
| "win_after e w (Suc n) = win_after e (snd (step e w)) n"

definition stop_at :: "('t, 'w) env \<Rightarrow> 'w \<Rightarrow> nat \<Rightarrow> bool" where
  "stop_at e w n = fst (step e (win_after e w n))"

definition never_stops :: "('t, 'w) env \<Rightarrow> fsnative list \<Rightarrow> bool" where
  "never_stops e files =
     list_all (\<lambda>i. \<not> stop_at e (WaitLoadWindow e (length files)) i) [0..<length files]"

fun processed :: "('t, 'w) env \<Rightarrow> 'w \<Rightarrow> fsnative list \<Rightarrow> nat" where
  "processed e w [] = 0"
| "processed e w (f # fs) =
     (if fst (step e w) then 1 else Suc (processed e (snd (step e w)) fs))"

text \<open>The track a library holds at a path, if a library is given and holds one.\<close>

definition library_lookup :: "'t library option \<Rightarrow> fsnative \<Rightarrow> 't option" where
  "library_lookup library p = (case library of None \<Rightarrow> None | Some l \<Rightarrow> get_filename l p)"

text \<open>
  The entries of a playlist file as the specification words them. M3U: the stripped
  lines that are not empty and do not start with \<open>#\<close>, decoded. PLS: a stripped
  line is a candidate when its first four bytes are \<open>file\<close> in any case, and its
  value is what follows its first \<open>=\<close>, stripped.
\<close>

definition spec_m3u_candidate :: "bytes \<Rightarrow> bool" where
  "spec_m3u_candidate l = (l \<noteq> [] \<and> \<not> startswith l ''#'')"

definition spec_m3u_entries :: "('t, 'w) env \<Rightarrow> bytes list \<Rightarrow> fsnative list" where
  "spec_m3u_entries e ls = List.map_filter (bytes2fsn e) (filter spec_m3u_candidate (map strip ls))"

definition spec_pls_candidate :: "bytes \<Rightarrow> bool" where
  "spec_pls_candidate l = (lower (take (length ''file'') l) = ''file'')"

definition spec_pls_value :: "bytes \<Rightarrow> bytes" where
  "spec_pls_value l = strip (tl (dropWhile (\<lambda>c. c \<noteq> CHR ''='') l))"

subsection \<open>An example environment\<close>

text \<open>
  Collaborators to run the model on: names decode unless they hold a null byte (as
  senf does on POSIX), a URI starts with \<open>http://\<close> or \<open>file://\<close>, only the
  latter converts to a path, paths are joined with a slash, no path is a symbolic
  link, and one file, \<open>/m/song1.mp3\<close>, loads. Tracks are named by strings. The
  window counts its steps; in \<open>demo_env\<close> it never asks to stop, in
  \<open>cancel_env\<close> it does at its second step.
\<close>

definition demo_env :: "(string, nat) env" where
  "demo_env =
     \<lparr>bytes2fsn = (\<lambda>b. if CHR 0x00 \<in> set b then None else Some b),
      uri_is_valid = (\<lambda>s. startswith s ''http://'' \<or> startswith s ''file://''),
      uri2fsn = (\<lambda>s. if startswith s ''file://'' then Some (drop 7 s) else None),
      path_join = (\<lambda>d f. if startswith f ''/'' \<or> d = [] then f else d @ ''/'' @ f),
      realpath = (\<lambda>p. p),
      dirname = (\<lambda>p. rev (tl (dropWhile (\<lambda>c. c \<noteq> CHR ''/'') (rev p)))),
      MusicFile = (\<lambda>p. if p = ''/m/song1.mp3'' then Some ''song1'' else None),
      RemoteFile = (\<lambda>u. ''remote '' @ u),
      WaitLoadWindow = (\<lambda>n. 0),
      step = (\<lambda>w. (False, Suc w))\<rparr>"

definition cancel_env :: "(string, nat) env" where
  "cancel_env = demo_env\<lparr>step := (\<lambda>w. (w = 1, Suc w))\<rparr>"

definition demo_file :: "bytes list \<Rightarrow> filelike" where
  "demo_file ls = \<lparr>fl_lines = ls, fl_name = Some ''/m/list.m3u''\<rparr>"

definition demo_prompt_env :: "(string, bool) prompt_env" where
  "demo_prompt_env =
     \<lparr>song_call = (\<lambda>s k. if k = ''title'' then s else []),
      next_iter = hd,
      title_text = (\<lambda>t n. if n = 1 then ''Remove track: '' @ t else ''Remove tracks''),
      run = (\<lambda>t. False),
      RESPONSE_INVOKE = True\<rparr>"

section \<open>Properties\<close>

subsection \<open>The loops in closed form\<close>

lemma m3u_lines_eq:
  "m3u_lines e ls acc =
     acc @ List.map_filter (bytes2fsn e) (filter (\<lambda>l. \<not> startswith l ''#'') (map strip ls))"
  by (induction ls arbitrary: acc)
     (auto simp: attempt_add_def Let_def split: option.splits)

lemma index_None: "index b c = None \<longleftrightarrow> c \<notin> set b"
  by (induction b) auto

lemma index_Some_drop:
  "index b c = Some i \<Longrightarrow> drop (Suc i) b = tl (dropWhile (\<lambda>x. x \<noteq> c) b)"
  by (induction b arbitrary: i) (auto split: if_splits)

lemma startswith_lower_file: "startswith (lower l) ''file'' = spec_pls_candidate l"
  by (simp add: startswith_def spec_pls_candidate_def lower_def take_map)


lemma import_loop_eq:
  "import_loop e lib d fs st =
     \<lparr>songs = songs st @ map (\<lambda>f. fst (entry_song e lib d f)) (take (processed e (win st) fs) fs),
      win = win_after e (win st) (processed e (win st) fs),
      trace = trace st @
        concat (map (\<lambda>f. snd (entry_song e lib d f) @ [Tick]) (take (processed e (win st) fs) fs))\<rparr>"
  by (induction fs arbitrary: st) (auto simp: Let_def split: prod.splits)

lemma processed_all:
  "\<forall>i < length fs. \<not> stop_at e w i \<Longrightarrow> processed e w fs = length fs"
proof (induction fs arbitrary: w)
  case Nil
  then show ?case by simp
next
  case (Cons f fs)
  have "\<not> fst (step e w)" using Cons.prems by (auto simp: stop_at_def)
  moreover have "\<forall>i < length fs. \<not> stop_at e (snd (step e w)) i"
    using Cons.prems by (auto simp: stop_at_def)
  ultimately show ?case using Cons.IH by simp
qed


lemma never_stops_processed:
  "never_stops e files \<Longrightarrow> processed e (WaitLoadWindow e (length files)) files = length files"
  by (rule processed_all) (simp add: never_stops_def list_all_iff)

lemma songs_run_import:
  "songs (run_import e lib d files) =
     map (\<lambda>f. fst (entry_song e lib d f))
       (take (processed e (WaitLoadWindow e (length files)) files) files)"
  by (simp add: run_import_def import_loop_eq)





subsection \<open>The parsers\<close>

text \<open>
  C1. The claim: parsing a PLS stream never aborts on a malformed line; a line that
  starts with \<open>file\<close> and has no \<open>=\<close> raises nothing, and a playlist is still
  returned. The code: on the stream of the lines \<open>[playlist]\<close>, \<open>File1\<close> and
  \<open>File2=song1.mp3\<close>, the second line passes the test of the prefix, \<open>index\<close>
  finds no \<open>=\<close> in it, and \<open>parse_pls\<close> ends with \<open>ValueError\<close>: no playlist is
  returned, and the third line is never read.
\<close>

theorem parse_pls_no_equals_raises:
  "parse_pls demo_env (demo_file [''[playlist]'', ''File1'' @ [CHR 0x0A], ''File2=song1.mp3''])
     ''pl'' None = Inl ValueError"
  by (simp add: parse_pls_def demo_file_def strip_def is_space_def lower_def lower_byte_def
      startswith_def)

text \<open>
  In general \<open>parse_pls\<close> raises exactly when some candidate line of the stream
  holds no \<open>=\<close>.
\<close>

lemma pls_lines_raises_iff:
  "pls_lines e ls acc = Inl ValueError \<longleftrightarrow>
     \<not> list_all (\<lambda>l. CHR ''='' \<in> set l) (filter spec_pls_candidate (map strip ls))"
proof (induction ls arbitrary: acc)
  case Nil
  then show ?case by simp
next
  case (Cons l ls)
  show ?case
  proof (cases "spec_pls_candidate (strip l)")
    case False
    then show ?thesis using Cons by (simp add: startswith_lower_file)
  next
    case True
    show ?thesis
    proof (cases "index (strip l) CHR ''=''")
      case None
      then show ?thesis using True index_None[of "strip l" "CHR ''=''"]
        by (simp add: startswith_lower_file)
    next
      case (Some i)
      then have "CHR ''='' \<in> set (strip l)"
        using index_None[of "strip l" "CHR ''=''"] by auto
      then show ?thesis using True Some Cons
        by (simp add: startswith_lower_file)
    qed
  qed
qed

text \<open>
  C2, as amended. The claim says that a stripped line of an M3U stream is a candidate
  entry exactly when it is not empty and does not start with \<open>#\<close>. The code tests
  the \<open>#\<close> only: the candidates are the stripped lines that do not start with
  \<open>#\<close>, an empty line among them, each decoded by \<open>bytes2fsn\<close> and dropped
  when that fails, whatever the other lines are. When the progress window never asks
  to stop, the playlist has as many songs as there are decoded candidates that
  resolve to a track.
\<close>

theorem m3u_candidates:
  "m3u_lines e (fl_lines f) [] =
     List.map_filter (bytes2fsn e) (filter (\<lambda>l. \<not> startswith l ''#'') (map strip (fl_lines f)))
   \<and> (never_stops e (m3u_lines e (fl_lines f) []) \<longrightarrow>
        length (playlist_songs (parse_m3u e f n lib)) =
        length (filter (\<lambda>x. fst (entry_song e lib (dir_for e f) x) \<noteq> None)
                  (m3u_lines e (fl_lines f) [])))"
proof -
  have a: "m3u_lines e (fl_lines f) [] =
     List.map_filter (bytes2fsn e) (filter (\<lambda>l. \<not> startswith l ''#'') (map strip (fl_lines f)))"
    using m3u_lines_eq[of e "fl_lines f" "[]"] by simp
  have b: "length (playlist_songs (parse_m3u e f n lib)) =
        length (filter (\<lambda>x. fst (entry_song e lib (dir_for e f) x) \<noteq> None)
                  (m3u_lines e (fl_lines f) []))"
    if "never_stops e (m3u_lines e (fl_lines f) [])"
    using never_stops_processed[OF that]
    by (simp add: parse_m3u_def create_playlist_def songs_run_import filter_map o_def)
  show ?thesis using a b by blast
qed

theorem m3u_candidates_witness:
  "m3u_lines demo_env
      (fl_lines (demo_file [''#comment'', [CHR 0x0A], ''song1.mp3'' @ [CHR 0x0A], ''missing.mp3'',
         ''http://stream.example/x.mp3''])) [] =
     [[], ''song1.mp3'', ''missing.mp3'', ''http://stream.example/x.mp3'']
   \<and> never_stops demo_env [[], ''song1.mp3'', ''missing.mp3'', ''http://stream.example/x.mp3'']
   \<and> length (playlist_songs (parse_m3u demo_env
        (demo_file [''#comment'', [CHR 0x0A], ''song1.mp3'' @ [CHR 0x0A], ''missing.mp3'',
           ''http://stream.example/x.mp3'']) ''pl'' None)) = 2"
proof -
  let ?f = "demo_file [''#comment'', [CHR 0x0A], ''song1.mp3'' @ [CHR 0x0A], ''missing.mp3'',
         ''http://stream.example/x.mp3'']"
  have l: "m3u_lines demo_env (fl_lines ?f) [] =
     [[], ''song1.mp3'', ''missing.mp3'', ''http://stream.example/x.mp3'']"
    by (simp add: demo_file_def demo_env_def attempt_add_def strip_def is_space_def
        startswith_def)
  have n: "never_stops demo_env [[], ''song1.mp3'', ''missing.mp3'', ''http://stream.example/x.mp3'']"
    by (simp add: never_stops_def stop_at_def demo_env_def)
  have d: "dir_for demo_env ?f = ''/m''"
    by (simp add: dir_for_def demo_file_def demo_env_def)
  have c: "length (filter (\<lambda>x. fst (entry_song demo_env None ''/m'' x) \<noteq> None)
     [[], ''song1.mp3'', ''missing.mp3'', ''http://stream.example/x.mp3'']) = 2"
    by (simp add: entry_song_def af_for_def demo_env_def startswith_def)
  show ?thesis
    using m3u_candidates[of demo_env ?f "''pl''" None] l n d c by simp
qed

text \<open>
  C2 fails as it is stated. An empty line between two names is an entry of its own
  (the empty name), which the wording of the claim excludes. And the length of the
  playlist is the number of resolvable lines only when the import is not cancelled:
  with a window that asks to stop at its second step, three lines that all resolve
  give a playlist of two songs.
\<close>

theorem m3u_empty_line_counterexample:
  "m3u_lines demo_env [''a.mp3'', [CHR 0x0A], ''b.mp3''] [] \<noteq>
     spec_m3u_entries demo_env [''a.mp3'', [CHR 0x0A], ''b.mp3'']
   \<and> spec_m3u_entries cancel_env [''song1.mp3'', ''song1.mp3'', ''song1.mp3''] =
       [''song1.mp3'', ''song1.mp3'', ''song1.mp3'']
   \<and> fst (entry_song cancel_env None ''/m'' ''song1.mp3'') = Some ''song1''
   \<and> length (playlist_songs (parse_m3u cancel_env
        (demo_file [''song1.mp3'', ''song1.mp3'', ''song1.mp3'']) ''pl'' None)) = 2"
proof -
  have a: "m3u_lines demo_env [''a.mp3'', [CHR 0x0A], ''b.mp3''] [] \<noteq>
     spec_m3u_entries demo_env [''a.mp3'', [CHR 0x0A], ''b.mp3'']"
    by (simp add: spec_m3u_entries_def spec_m3u_candidate_def demo_env_def attempt_add_def
        strip_def is_space_def startswith_def)
  have b: "spec_m3u_entries cancel_env [''song1.mp3'', ''song1.mp3'', ''song1.mp3''] =
       [''song1.mp3'', ''song1.mp3'', ''song1.mp3'']"
    by (simp add: spec_m3u_entries_def spec_m3u_candidate_def cancel_env_def demo_env_def
        strip_def is_space_def startswith_def)
  have c: "fst (entry_song cancel_env None ''/m'' ''song1.mp3'') = Some ''song1''"
    by (simp add: entry_song_def af_for_def cancel_env_def demo_env_def startswith_def)
  have l: "m3u_lines cancel_env [''song1.mp3'', ''song1.mp3'', ''song1.mp3''] [] =
       [''song1.mp3'', ''song1.mp3'', ''song1.mp3'']"
    by (simp add: cancel_env_def demo_env_def attempt_add_def strip_def is_space_def
        startswith_def Let_def)
  have d: "dir_for cancel_env (demo_file [''song1.mp3'', ''song1.mp3'', ''song1.mp3'']) = ''/m''"
    by (simp add: dir_for_def demo_file_def cancel_env_def demo_env_def)
  have f: "fl_lines (demo_file [''song1.mp3'', ''song1.mp3'', ''song1.mp3'']) =
       [''song1.mp3'', ''song1.mp3'', ''song1.mp3'']"
    by (simp add: demo_file_def)
  have w: "WaitLoadWindow cancel_env n = 0" for n
    by (simp add: cancel_env_def demo_env_def)
  have k: "processed cancel_env 0 [''song1.mp3'', ''song1.mp3'', ''song1.mp3''] = 2"
    by (simp add: cancel_env_def demo_env_def)
  have r: "songs (run_import cancel_env None ''/m'' [''song1.mp3'', ''song1.mp3'', ''song1.mp3'']) =
       [Some ''song1'', Some ''song1'']"
    by (simp add: songs_run_import w k c del: processed.simps)
  have e: "length (playlist_songs (parse_m3u cancel_env
        (demo_file [''song1.mp3'', ''song1.mp3'', ''song1.mp3'']) ''pl'' None)) = 2"
    unfolding parse_m3u_def d f l create_playlist_def by (simp add: r)
  show ?thesis by (intro conjI a b c e)
qed

lemma pls_lines_all:
  assumes "list_all (\<lambda>l. CHR ''='' \<in> set l) (filter spec_pls_candidate (map strip ls))"
  shows "pls_lines e ls acc =
     Inr (acc @ List.map_filter (bytes2fsn e)
            (map spec_pls_value (filter spec_pls_candidate (map strip ls))))"
  using assms
proof (induction ls arbitrary: acc)
  case Nil
  then show ?case by simp
next
  case (Cons l ls)
  show ?case
  proof (cases "spec_pls_candidate (strip l)")
    case False
    then show ?thesis using Cons by (simp add: startswith_lower_file)
  next
    case True
    then have "CHR ''='' \<in> set (strip l)" using Cons.prems by simp
    then obtain i where i: "index (strip l) CHR ''='' = Some i"
      using index_None[of "strip l" "CHR ''=''"] by (cases "index (strip l) CHR ''=''") auto
    have v: "strip (drop (Suc i) (strip l)) = spec_pls_value (strip l)"
      using index_Some_drop[OF i] by (simp add: spec_pls_value_def)
    have rest: "list_all (\<lambda>l. CHR ''='' \<in> set l) (filter spec_pls_candidate (map strip ls))"
      using Cons.prems True by simp
    show ?thesis
      using True i v Cons.IH[OF rest]
      by (simp add: startswith_lower_file attempt_add_def split: option.splits)
  qed
qed

lemma index_first:
  "c \<notin> set pre \<Longrightarrow> index (pre @ c # post) c = Some (length pre)"
  by (induction pre) auto

text \<open>
  C3. A line of a PLS stream whose stripped content does not start with \<open>file\<close>
  (in any case) is skipped, whatever else it holds; a line that does is a candidate,
  and its entry is what follows the first \<open>=\<close> of the stripped line, stripped
  again. For a whole stream in which every candidate line holds a \<open>=\<close>, the names
  handed on are the decoded values of the candidate lines, in order.
\<close>

theorem pls_candidates:
  "(\<not> spec_pls_candidate (strip l) \<longrightarrow> pls_lines e (l # ls) acc = pls_lines e ls acc)
   \<and> (spec_pls_candidate (strip l) \<and> strip l = pre @ CHR ''='' # post \<and> CHR ''='' \<notin> set pre \<longrightarrow>
        pls_lines e (l # ls) acc = pls_lines e ls (attempt_add e (strip post) acc))
   \<and> (list_all (\<lambda>l. CHR ''='' \<in> set l) (filter spec_pls_candidate (map strip ls)) \<longrightarrow>
        pls_lines e ls acc =
          Inr (acc @ List.map_filter (bytes2fsn e)
                 (map spec_pls_value (filter spec_pls_candidate (map strip ls)))))"
proof -
  have a: "pls_lines e (l # ls) acc = pls_lines e ls acc" if "\<not> spec_pls_candidate (strip l)"
    using that by (simp add: startswith_lower_file)
  have b: "pls_lines e (l # ls) acc = pls_lines e ls (attempt_add e (strip post) acc)"
    if "spec_pls_candidate (strip l)" "strip l = pre @ CHR ''='' # post" "CHR ''='' \<notin> set pre"
    using that index_first[of "CHR ''=''" pre post]
    by (simp add: startswith_lower_file)
  show ?thesis using a b pls_lines_all[of ls e acc] by blast
qed

lemma demo_pls_strip:
  "map strip [''[playlist]'', '' FiLe1 = a=b.mp3 '' @ [CHR 0x0A], ''Title1=file'', ''file2=c''] =
     [''[playlist]'', ''FiLe1 = a=b.mp3'', ''Title1=file'', ''file2=c'']"
  by (simp add: strip_def is_space_def)

lemma demo_pls_filter:
  "filter spec_pls_candidate [''[playlist]'', ''FiLe1 = a=b.mp3'', ''Title1=file'', ''file2=c''] =
     [''FiLe1 = a=b.mp3'', ''file2=c'']"
  by (simp add: spec_pls_candidate_def lower_def lower_byte_def)

theorem pls_candidates_witness:
  "list_all (\<lambda>l. CHR ''='' \<in> set l) (filter spec_pls_candidate
        (map strip [''[playlist]'', '' FiLe1 = a=b.mp3 '' @ [CHR 0x0A], ''Title1=file'', ''file2=c'']))
   \<and> pls_lines demo_env [''[playlist]'', '' FiLe1 = a=b.mp3 '' @ [CHR 0x0A], ''Title1=file'', ''file2=c'']
        [] = Inr [''a=b.mp3'', ''c'']"
proof -
  let ?ls = "[''[playlist]'', '' FiLe1 = a=b.mp3 '' @ [CHR 0x0A], ''Title1=file'', ''file2=c'']"
  have h: "list_all (\<lambda>l. CHR ''='' \<in> set l) (filter spec_pls_candidate (map strip ?ls))"
    by (simp only: demo_pls_strip demo_pls_filter) simp
  have v: "map spec_pls_value [''FiLe1 = a=b.mp3'', ''file2=c''] = [''a=b.mp3'', ''c'']"
    by (simp add: spec_pls_value_def strip_def is_space_def)
  have m: "List.map_filter (bytes2fsn demo_env) [''a=b.mp3'', ''c''] = [''a=b.mp3'', ''c'']"
    by (simp add: demo_env_def)
  have "pls_lines demo_env ?ls [] =
          Inr ([] @ List.map_filter (bytes2fsn demo_env)
                 (map spec_pls_value (filter spec_pls_candidate (map strip ?ls))))"
    using pls_candidates[of "[]" demo_env ?ls "[]"] h by blast
  then have "pls_lines demo_env ?ls [] = Inr [''a=b.mp3'', ''c'']"
    by (simp only: demo_pls_strip demo_pls_filter v m append_Nil)
  then show ?thesis using h by (rule conjI[rotated])
qed

subsection \<open>Resolution of an entry\<close>

text \<open>
  C4. An entry that is not a valid URI is resolved by \<open>_af_for\<close> at the real path
  of the join of the source directory and the entry: the library is asked for that
  path and the file is probed at that path, and at no other; the song is the
  library's track at that path, or else what probing that path gives.
\<close>

theorem plain_entry_local_path:
  assumes "\<not> uri_is_valid e x" and "p = realpath e (path_join e d x)"
  shows "entry_song e lib d x = af_for e x lib d
   \<and> snd (entry_song e lib d x) \<noteq> []
   \<and> set (snd (entry_song e lib d x)) \<subseteq> {LibQuery p, Probe p}
   \<and> fst (entry_song e lib d x) =
       (case library_lookup lib p of Some t \<Rightarrow> Some t | None \<Rightarrow> MusicFile e p)"
  using assms
  by (auto simp: entry_song_def af_for_def library_lookup_def truthy_def get_filename_def
      Let_def split: option.splits)

theorem plain_entry_local_path_witness:
  "\<not> uri_is_valid demo_env ''song1.mp3''
   \<and> realpath demo_env (path_join demo_env ''/m'' ''song1.mp3'') = ''/m/song1.mp3''
   \<and> entry_song demo_env (Some [(''/m/song1.mp3'', ''lib1'')]) ''/m'' ''song1.mp3'' =
       (Some ''lib1'', [LibQuery ''/m/song1.mp3''])"
proof -
  have h: "\<not> uri_is_valid demo_env ''song1.mp3''"
    by (simp add: demo_env_def startswith_def)
  have p: "''/m/song1.mp3'' = realpath demo_env (path_join demo_env ''/m'' ''song1.mp3'')"
    by (simp add: demo_env_def startswith_def)
  have a: "af_for demo_env ''song1.mp3'' (Some [(''/m/song1.mp3'', ''lib1'')]) ''/m'' =
       (Some ''lib1'', [LibQuery ''/m/song1.mp3''])"
    by (simp add: af_for_def demo_env_def startswith_def truthy_def get_filename_def)
  show ?thesis
    using h p a
      plain_entry_local_path[OF h p, of "Some [(''/m/song1.mp3'', ''lib1'')]"]
    by simp
qed

text \<open>
  C5. An entry that is a valid URI and that \<open>uri2fsn\<close> refuses becomes a remote
  track built from the entry as it stands: the only event is the construction of
  the \<open>RemoteFile\<close> (no library lookup, no probe), the result is a track, and when
  the entry is among those the loop goes through, that track is in the playlist.
\<close>

theorem remote_uri_track:
  assumes "uri_is_valid e x" and "uri2fsn e x = None"
  shows "entry_song e lib d x = (Some (RemoteFile e x), [Remote x])
   \<and> (x \<in> set (take (processed e (WaitLoadWindow e (length files)) files) files) \<longrightarrow>
        Some (RemoteFile e x) \<in> set (playlist_songs (create_playlist e name d files lib)))"
proof -
  have a: "entry_song e lib d x = (Some (RemoteFile e x), [Remote x])"
    using assms by (simp add: entry_song_def)
  have "Some (RemoteFile e x) \<in> set (playlist_songs (create_playlist e name d files lib))"
    if "x \<in> set (take (processed e (WaitLoadWindow e (length files)) files) files)"
  proof -
    have "fst (entry_song e lib d x) \<in> set (songs (run_import e lib d files))"
      using that by (simp add: songs_run_import)
    then show ?thesis using a by (simp add: create_playlist_def)
  qed
  then show ?thesis using a by blast
qed

theorem remote_uri_track_witness:
  "uri_is_valid demo_env ''http://stream.example/x.mp3''
   \<and> uri2fsn demo_env ''http://stream.example/x.mp3'' = None
   \<and> entry_song demo_env (Some [(''http://stream.example/x.mp3'', ''lib1'')]) ''/m''
        ''http://stream.example/x.mp3'' =
       (Some ''remote http://stream.example/x.mp3'', [Remote ''http://stream.example/x.mp3''])
   \<and> Some ''remote http://stream.example/x.mp3'' \<in> set (playlist_songs
        (create_playlist demo_env ''pl'' ''/m'' [''missing.mp3'', ''http://stream.example/x.mp3'']
           (Some [(''http://stream.example/x.mp3'', ''lib1'')])))"
proof -
  have h1: "uri_is_valid demo_env ''http://stream.example/x.mp3''"
    by (simp add: demo_env_def startswith_def)
  have h2: "uri2fsn demo_env ''http://stream.example/x.mp3'' = None"
    by (simp add: demo_env_def startswith_def)
  have r: "RemoteFile demo_env ''http://stream.example/x.mp3'' = ''remote http://stream.example/x.mp3''"
    by (simp add: demo_env_def)
  have k: "processed demo_env (WaitLoadWindow demo_env (length [''missing.mp3'', ''http://stream.example/x.mp3'']))
      [''missing.mp3'', ''http://stream.example/x.mp3''] = 2"
    by (simp add: demo_env_def)
  show ?thesis
    using h1 h2 r k
      remote_uri_track[OF h1 h2, of "Some [(''http://stream.example/x.mp3'', ''lib1'')]" "''/m''"
        "[''missing.mp3'', ''http://stream.example/x.mp3'']" "''pl''"]
    by simp
qed

text \<open>
  C6. With \<open>p\<close> the canonical path of an entry: when a library is given and holds a
  track at \<open>p\<close>, \<open>_af_for\<close> returns that track after one lookup and constructs
  nothing. When no library is given or it holds nothing at \<open>p\<close>, the result is what
  \<open>MusicFile\<close> gives at \<open>p\<close>, after at most one lookup; when that is \<open>None\<close>
  (the file could not be loaded) the result is \<open>None\<close>.
\<close>

theorem af_for_library_or_probe:
  assumes "p = realpath e (path_join e d x)"
  shows "(library = Some l \<and> get_filename l p = Some t \<longrightarrow>
            af_for e x library d = (Some t, [LibQuery p]))
   \<and> (library_lookup library p = None \<longrightarrow>
            fst (af_for e x library d) = MusicFile e p
          \<and> (snd (af_for e x library d) = [Probe p]
              \<or> snd (af_for e x library d) = [LibQuery p, Probe p]))
   \<and> (library_lookup library p = None \<and> MusicFile e p = None \<longrightarrow>
            fst (af_for e x library d) = None)"
  using assms
  by (auto simp: af_for_def library_lookup_def truthy_def get_filename_def Let_def
      split: option.splits)

theorem af_for_library_or_probe_witness:
  "''/m/song1.mp3'' = realpath demo_env (path_join demo_env ''/m'' ''song1.mp3'')
   \<and> get_filename [(''/m/song1.mp3'', ''lib1'')] ''/m/song1.mp3'' = Some ''lib1''
   \<and> af_for demo_env ''song1.mp3'' (Some [(''/m/song1.mp3'', ''lib1'')]) ''/m'' =
       (Some ''lib1'', [LibQuery ''/m/song1.mp3''])"
proof -
  have p: "''/m/song1.mp3'' = realpath demo_env (path_join demo_env ''/m'' ''song1.mp3'')"
    by (simp add: demo_env_def startswith_def)
  have g: "get_filename [(''/m/song1.mp3'', ''lib1'')] ''/m/song1.mp3'' = Some ''lib1''"
    by (simp add: get_filename_def)
  show ?thesis
    using p g af_for_library_or_probe[OF p, of "Some [(''/m/song1.mp3'', ''lib1'')]"
        "[(''/m/song1.mp3'', ''lib1'')]" "''lib1''"]
    by simp
qed

subsection \<open>Assembly of the playlist\<close>

text \<open>
  C7. The songs of the returned playlist are the results of the entries the loop
  went through, in the order of the entries, with the \<open>None\<close> results removed; no
  song of the playlist is \<open>None\<close>. The same holds for what the two parsers return.
\<close>

theorem playlist_no_None_in_order:
  "None \<notin> set (playlist_songs (create_playlist e name d files lib))
   \<and> playlist_songs (create_playlist e name d files lib) =
       filter (\<lambda>s. s \<noteq> None)
         (map (\<lambda>f. fst (entry_song e lib d f))
            (take (processed e (WaitLoadWindow e (length files)) files) files))
   \<and> None \<notin> set (playlist_songs (parse_m3u e f name lib))
   \<and> (\<forall>pl. parse_pls e f name lib = Inr pl \<longrightarrow> None \<notin> set (playlist_songs pl))"
  by (auto simp: create_playlist_def songs_run_import parse_m3u_def parse_pls_def
      split: sum.splits)

theorem playlist_no_None_in_order_witness:
  "playlist_songs (create_playlist demo_env ''pl'' ''/m''
      [''song1.mp3'', ''missing.mp3'', ''http://stream.example/x.mp3''] None) =
     [Some ''song1'', Some ''remote http://stream.example/x.mp3'']"
proof -
  let ?files = "[''song1.mp3'', ''missing.mp3'', ''http://stream.example/x.mp3'']"
  have k: "processed demo_env (WaitLoadWindow demo_env (length ?files)) ?files = 3"
    by (simp add: demo_env_def)
  have m: "filter (\<lambda>s. s \<noteq> None)
      (map (\<lambda>f. fst (entry_song demo_env None ''/m'' f)) (take 3 ?files)) =
      [Some ''song1'', Some ''remote http://stream.example/x.mp3'']"
    by (simp add: entry_song_def af_for_def demo_env_def startswith_def)
  have "playlist_songs (create_playlist demo_env ''pl'' ''/m'' ?files None) =
       filter (\<lambda>s. s \<noteq> None)
         (map (\<lambda>f. fst (entry_song demo_env None ''/m'' f))
            (take (processed demo_env (WaitLoadWindow demo_env (length ?files)) ?files) ?files))"
    using playlist_no_None_in_order[of demo_env "''pl''" "''/m''" ?files None] by blast
  then show ?thesis unfolding k m .
qed



subsection \<open>URIs of local files\<close>

text \<open>
  C9. An entry that is a valid URI which \<open>uri2fsn\<close> converts to the path \<open>p\<close> is
  resolved by \<open>_af_for\<close> on \<open>p\<close> with the same library and source directory;
  when \<open>p\<close> is a plain path (not a valid URI itself), the URI and the path give
  the same track and the same events.
\<close>

theorem file_uri_same_as_plain_path:
  assumes "uri_is_valid e u" and "uri2fsn e u = Some p"
  shows "entry_song e lib d u = af_for e p lib d
   \<and> (\<not> uri_is_valid e p \<longrightarrow> entry_song e lib d u = entry_song e lib d p)"
  using assms by (simp add: entry_song_def)

theorem file_uri_same_as_plain_path_witness:
  "uri_is_valid demo_env ''file:///m/song1.mp3''
   \<and> uri2fsn demo_env ''file:///m/song1.mp3'' = Some ''/m/song1.mp3''
   \<and> \<not> uri_is_valid demo_env ''/m/song1.mp3''
   \<and> entry_song demo_env None ''/x'' ''file:///m/song1.mp3'' =
       entry_song demo_env None ''/x'' ''/m/song1.mp3''
   \<and> entry_song demo_env None ''/x'' ''file:///m/song1.mp3'' =
       (Some ''song1'', [Probe ''/m/song1.mp3''])"
proof -
  have h1: "uri_is_valid demo_env ''file:///m/song1.mp3''"
    by (simp add: demo_env_def startswith_def)
  have h2: "uri2fsn demo_env ''file:///m/song1.mp3'' = Some ''/m/song1.mp3''"
    by (simp add: demo_env_def startswith_def)
  have h3: "\<not> uri_is_valid demo_env ''/m/song1.mp3''"
    by (simp add: demo_env_def startswith_def)
  have a: "af_for demo_env ''/m/song1.mp3'' None ''/x'' = (Some ''song1'', [Probe ''/m/song1.mp3''])"
    by (simp add: af_for_def demo_env_def startswith_def)
  have t: "entry_song demo_env None ''/x'' ''file:///m/song1.mp3'' =
        af_for demo_env ''/m/song1.mp3'' None ''/x''
      \<and> entry_song demo_env None ''/x'' ''file:///m/song1.mp3'' =
        entry_song demo_env None ''/x'' ''/m/song1.mp3''"
    using file_uri_same_as_plain_path[OF h1 h2, of None "''/x''"] h3 by blast
  have e1: "entry_song demo_env None ''/x'' ''file:///m/song1.mp3'' =
       entry_song demo_env None ''/x'' ''/m/song1.mp3''"
    using t by (rule conjunct2)
  have e2: "entry_song demo_env None ''/x'' ''file:///m/song1.mp3'' =
       (Some ''song1'', [Probe ''/m/song1.mp3''])"
    using t a by simp
  show ?thesis
    by (intro conjI h1 h2 h3 e1 e2)
qed

subsection \<open>The confirmation of a removal\<close>

text \<open>
  C10. Called with no songs, \<open>confirm_remove_playlist_tracks_dialog_invoke\<close>
  returns \<open>True\<close> and neither constructs nor runs a dialog. Called with songs, it
  constructs and runs one dialog, whose title is made with the number of distinct
  songs.
\<close>

theorem confirm_remove_empty:
  "confirm_remove_playlist_tracks_dialog_invoke e [] = (True, [])
   \<and> (ss \<noteq> [] \<longrightarrow>
        (\<exists>t. confirm_remove_playlist_tracks_dialog_invoke e ss =
           (run e (title_text e t (length (remdups ss))) = RESPONSE_INVOKE e,
            [Construct (title_text e t (length (remdups ss))), Run])))"
proof -
  have a: "confirm_remove_playlist_tracks_dialog_invoke e [] = (True, [])"
    by (simp add: confirm_remove_playlist_tracks_dialog_invoke_def)
  have b: "\<exists>t. confirm_remove_playlist_tracks_dialog_invoke e ss =
           (run e (title_text e t (length (remdups ss))) = RESPONSE_INVOKE e,
            [Construct (title_text e t (length (remdups ss))), Run])"
    if "ss \<noteq> []"
  proof -
    let ?song = "next_iter e ss"
    let ?t = "if song_call e ?song ''title'' \<noteq> [] then song_call e ?song ''title''
              else song_call e ?song ''~basename''"
    have "confirm_remove_playlist_tracks_dialog_invoke e ss =
           (run e (title_text e ?t (length (remdups ss))) = RESPONSE_INVOKE e,
            [Construct (title_text e ?t (length (remdups ss))), Run])"
      using that
      by (simp add: confirm_remove_playlist_tracks_dialog_invoke_def Let_def
          length_remdups_card_conv)
    then show ?thesis by (rule exI)
  qed
  show ?thesis using a b by blast
qed

theorem confirm_remove_empty_witness:
  "confirm_remove_playlist_tracks_dialog_invoke demo_prompt_env [] = (True, [])
   \<and> confirm_remove_playlist_tracks_dialog_invoke demo_prompt_env [''a'', ''a''] =
       (False, [Construct ''Remove track: a'', Run])"
proof -
  have c: "card {''a''} = (1::nat)" by simp
  have "confirm_remove_playlist_tracks_dialog_invoke demo_prompt_env [''a'', ''a''] =
       (False, [Construct ''Remove track: a'', Run])"
    by (simp add: confirm_remove_playlist_tracks_dialog_invoke_def demo_prompt_env_def Let_def)
  then show ?thesis
    using confirm_remove_empty[of demo_prompt_env "[''a'', ''a'']"] by simp
qed

end
